theory Spec2Isabelle
  imports Complex_Main
begin

section \<open>The notebook Radio\_interferometry/p1.ipynb\<close>

text \<open>
  The notebook is a straight-line script: nine code cells, each a few assignments of
  floating-point expressions to variables of the kernel's namespace. The model follows it
  cell by cell. The first cell holds the imports only; the \<open>print\<close> calls, and the array
  \<open>lines\<close> of line names that only they read, are left out.

  Numbers. The source computes with IEEE binary64 values, some of them Python floats and some
  NumPy scalars. The model keeps the four kinds of value such a number can be. A product, a
  quotient or a power that leaves the range of binary64 becomes what the source makes of
  it: an infinity above the range, zero below it, and for Python's \<open>**\<close> an
  OverflowError. Inside the range the model computes exactly: rounding is not modelled, and
  neither is the sign of zero (a zero is the positive zero). The two families differ at a
  zero divisor: Python's \<open>/\<close> on floats raises ZeroDivisionError, NumPy's returns an
  infinity or a NaN with a warning; \<open>np.log10\<close> returns \<open>-inf\<close> at zero and NaN below
  it.
\<close>

datatype float64 = Num real | PosInf | NegInf | NaN

datatype py_error = ZeroDivisionError | IndexError | NameError | OverflowError | TypeError

subsection \<open>The range of binary64\<close>

text \<open>
  The largest binary64 number is \<open>2 ^ 1024 - 2 ^ 971\<close>; a result of magnitude
  \<open>2 ^ 1024 - 2 ^ 970\<close> or more rounds to an infinity. The smallest positive one is
  \<open>2 ^ -1074\<close>; a result of magnitude \<open>2 ^ -1075\<close> or less rounds to zero.
\<close>

definition overflow_bound :: real where
  "overflow_bound = 2 ^ 1024 - 2 ^ 970"

definition underflow_bound :: real where
  "underflow_bound = 1 / 2 ^ 1075"

text \<open>The infinity with the sign of \<open>x\<close>; NaN for zero, as in \<open>0 * inf\<close> and \<open>0 / 0\<close>.\<close>

definition inf_signed :: "real \<Rightarrow> float64" where
  "inf_signed x = (if 0 < x then PosInf else if x < 0 then NegInf else NaN)"

text \<open>The binary64 value of an exact result \<open>x\<close>.\<close>

definition fl :: "real \<Rightarrow> float64" where
  "fl x = (if overflow_bound \<le> \<bar>x\<bar> then inf_signed x
           else if \<bar>x\<bar> \<le> underflow_bound then Num 0
           else Num x)"

text \<open>The exact results that binary64 keeps: zero, and what lies strictly between the bounds.\<close>

definition in_range :: "real \<Rightarrow> bool" where
  "in_range x \<longleftrightarrow> x = 0 \<or> (underflow_bound < \<bar>x\<bar> \<and> \<bar>x\<bar> < overflow_bound)"

text \<open>
  The order of binary64 values, Python's \<open><=\<close>: an infinity at either end, and NaN
  comparable with nothing.
\<close>

fun f64_le :: "float64 \<Rightarrow> float64 \<Rightarrow> bool" where
  "f64_le NaN _ = False"
| "f64_le _ NaN = False"
| "f64_le NegInf _ = True"
| "f64_le _ PosInf = True"
| "f64_le (Num x) (Num y) = (x \<le> y)"
| "f64_le PosInf _ = False"
| "f64_le _ NegInf = False"

subsection \<open>Arithmetic on float64\<close>

text \<open>
  Sums and differences are exact. The notebook adds and subtracts twice, in \<open>1+redshift\<close>
  and in \<open>np.log10(lfir_sun)-0.53\<close>, and neither can leave the range: \<open>1 + z\<close> rounds
  back to the largest number when \<open>z\<close> is the largest, and a logarithm is below 309 in
  magnitude; a sum of two binary64 numbers never rounds to zero unless it is zero.
\<close>

fun np_neg :: "float64 \<Rightarrow> float64" where
  "np_neg (Num x) = Num (- x)"
| "np_neg PosInf = NegInf"
| "np_neg NegInf = PosInf"
| "np_neg NaN = NaN"

fun np_add :: "float64 \<Rightarrow> float64 \<Rightarrow> float64" where
  "np_add NaN _ = NaN"
| "np_add _ NaN = NaN"
| "np_add (Num x) (Num y) = Num (x + y)"
| "np_add (Num x) PosInf = PosInf"
| "np_add (Num x) NegInf = NegInf"
| "np_add PosInf (Num y) = PosInf"
| "np_add NegInf (Num y) = NegInf"
| "np_add PosInf PosInf = PosInf"
| "np_add NegInf NegInf = NegInf"
| "np_add PosInf NegInf = NaN"
| "np_add NegInf PosInf = NaN"

definition np_sub :: "float64 \<Rightarrow> float64 \<Rightarrow> float64" where
  "np_sub a b = np_add a (np_neg b)"

text \<open>
  The product. Out of range it is an infinity or zero, as for NumPy (with a warning) and
  for Python's \<open>*\<close> on floats.
\<close>

fun np_mul :: "float64 \<Rightarrow> float64 \<Rightarrow> float64" where
  "np_mul NaN _ = NaN"
| "np_mul _ NaN = NaN"
| "np_mul (Num x) (Num y) = fl (x * y)"
| "np_mul (Num x) PosInf = inf_signed x"
| "np_mul (Num x) NegInf = inf_signed (- x)"
| "np_mul PosInf (Num y) = inf_signed y"
| "np_mul NegInf (Num y) = inf_signed (- y)"
| "np_mul PosInf PosInf = PosInf"
| "np_mul NegInf NegInf = PosInf"
| "np_mul PosInf NegInf = NegInf"
| "np_mul NegInf PosInf = NegInf"

text \<open>
  NumPy's true division. A zero divisor gives a signed infinity, or NaN for \<open>0 / 0\<close>; a
  quotient out of range is an infinity or zero; nothing is raised.
\<close>

fun np_div :: "float64 \<Rightarrow> float64 \<Rightarrow> float64" where
  "np_div NaN _ = NaN"
| "np_div _ NaN = NaN"
| "np_div (Num x) (Num y) = (if y = 0 then inf_signed x else fl (x / y))"
| "np_div (Num x) PosInf = Num 0"
| "np_div (Num x) NegInf = Num 0"
| "np_div PosInf (Num y) = (if 0 \<le> y then PosInf else NegInf)"
| "np_div NegInf (Num y) = (if 0 \<le> y then NegInf else PosInf)"
| "np_div PosInf PosInf = NaN"
| "np_div NegInf NegInf = NaN"
| "np_div PosInf NegInf = NaN"
| "np_div NegInf PosInf = NaN"

text \<open>
  Python's \<open>/\<close> on two Python numbers: a zero divisor raises; a quotient out of range is
  an infinity or zero, and nothing is raised for it.
\<close>

definition py_div :: "float64 \<Rightarrow> float64 \<Rightarrow> py_error + float64" where
  "py_div a b = (if b = Num 0 then Inl ZeroDivisionError else Inr (np_div a b))"

text \<open>
  \<open>np.log10\<close>. The logarithm of a positive binary64 number lies between -324 and 309.
\<close>

fun np_log10 :: "float64 \<Rightarrow> float64" where
  "np_log10 (Num x) = (if 0 < x then Num (log 10 x) else if x = 0 then NegInf else NaN)"
| "np_log10 PosInf = PosInf"
| "np_log10 NegInf = NaN"
| "np_log10 NaN = NaN"

text \<open>\<open>10**y\<close> for a NumPy scalar \<open>y\<close>.\<close>

fun pow10 :: "float64 \<Rightarrow> float64" where
  "pow10 (Num y) = fl (10 powr y)"
| "pow10 PosInf = PosInf"
| "pow10 NegInf = Num 0"
| "pow10 NaN = NaN"

text \<open>
  \<open>x**3\<close> on a Python float: Python raises OverflowError when the cube of a finite
  number is out of range above, and returns zero when it is out of range below.
\<close>

fun py_pow3 :: "float64 \<Rightarrow> py_error + float64" where
  "py_pow3 (Num x) = (if overflow_bound \<le> \<bar>x ^ 3\<bar> then Inl OverflowError else Inr (fl (x ^ 3)))"
| "py_pow3 PosInf = Inr PosInf"
| "py_pow3 NegInf = Inr NegInf"
| "py_pow3 NaN = Inr NaN"

definition bind :: "py_error + 'a \<Rightarrow> ('a \<Rightarrow> py_error + 'b) \<Rightarrow> py_error + 'b" where
  "bind m f = (case m of Inl e \<Rightarrow> Inl e | Inr x \<Rightarrow> f x)"

subsection \<open>The expressions of the notebook\<close>

text \<open>
  Each definition is the right-hand side of one chain of assignments, as a function of the
  variables it reads. The variable it assigns gives it its name.

  \<^verbatim>\<open>lfir = sfr/kappa\<close>, on two Python numbers.
\<close>

definition lfir_of :: "float64 \<Rightarrow> float64 \<Rightarrow> py_error + float64" where
  "lfir_of sfr kappa = py_div sfr kappa"

text \<open>
  \<^verbatim>\<open>lfir_sun = lfir/lsun\<close>
  \<^verbatim>\<open>logco = (np.log10(lfir_sun)-0.53)/1.13\<close>
  \<^verbatim>\<open>lco_diff_units = 10**(logco)\<close>
  \<open>lsun\<close> comes from \<open>astropy\<close> as a NumPy scalar, so the first division is NumPy's.
\<close>

definition lfir_sun_of :: "float64 \<Rightarrow> float64 \<Rightarrow> float64" where
  "lfir_sun_of lfir lsun = np_div lfir lsun"

definition logco_of :: "float64 \<Rightarrow> float64" where
  "logco_of lfir_sun = np_div (np_sub (np_log10 lfir_sun) (Num 0.53)) (Num 1.13)"

definition lco_diff_units_of :: "float64 \<Rightarrow> float64 \<Rightarrow> float64" where
  "lco_diff_units_of lfir lsun = pow10 (logco_of (lfir_sun_of lfir lsun))"

text \<open>
  \<^verbatim>\<open>rest_frame = np.array([115.271204, 230.537990, 345.795989, 461.040770, 576.267904, 691.473090, 806.651806])\<close>
  \<^verbatim>\<open>obs_freq = rest_frame/(1+redshift)\<close>
  The division is NumPy's, element by element.
\<close>

definition rest_frame_table :: "real list" where
  "rest_frame_table =
     [115.271204, 230.537990, 345.795989, 461.040770, 576.267904, 691.473090, 806.651806]"

definition obs_freq_of :: "float64 list \<Rightarrow> float64 \<Rightarrow> float64 list" where
  "obs_freq_of rest_frame redshift =
     map (\<lambda>r. np_div r (np_add (Num 1) redshift)) rest_frame"

text \<open>
  \<^verbatim>\<open>lco_32 = lco_diff_units*0.6\<close>
  \<^verbatim>\<open>lco_32_lens = 4.3*lco_32\<close>
  \<^verbatim>\<open>flux_density = flux_s/200\<close>
  \<^verbatim>\<open>mass_h2 = lco_diff_units*4\<close>
  The source writes the line ratio 0.6, the magnification 4.3, the velocity dispersion 200
  and the conversion factor 4 in place. The model names them, so that a statement can range
  over them; \<open>p1_params\<close> below holds the values the source has.
\<close>

definition lco_32_of :: "float64 \<Rightarrow> float64 \<Rightarrow> float64" where
  "lco_32_of lco_diff_units ratio = np_mul lco_diff_units ratio"

definition lco_32_lens_of :: "float64 \<Rightarrow> float64 \<Rightarrow> float64" where
  "lco_32_lens_of magnification lco_32 = np_mul magnification lco_32"

text \<open>
  \<^verbatim>\<open>aa = (lco_32_lens*freq1*freq1*((1+redshift)**3))\<close>
  \<^verbatim>\<open>bb = dl*dl*(3.25e7)\<close>
  \<^verbatim>\<open>flux_s = aa/bb\<close>
  The products are NumPy's; the cube is Python's and can raise.
\<close>

definition aa_of :: "float64 \<Rightarrow> float64 \<Rightarrow> float64 \<Rightarrow> py_error + float64" where
  "aa_of lco_32_lens freq1 redshift =
     bind (py_pow3 (np_add (Num 1) redshift))
       (\<lambda>c. Inr (np_mul (np_mul (np_mul lco_32_lens freq1) freq1) c))"

definition bb_of :: "float64 \<Rightarrow> float64" where
  "bb_of dl = np_mul (np_mul dl dl) (Num 32500000)"

definition flux_s_of :: "float64 \<Rightarrow> float64 \<Rightarrow> float64 \<Rightarrow> float64 \<Rightarrow> py_error + float64" where
  "flux_s_of lco_32_lens freq1 redshift dl =
     bind (aa_of lco_32_lens freq1 redshift) (\<lambda>a. Inr (np_div a (bb_of dl)))"

definition flux_density_of :: "float64 \<Rightarrow> float64 \<Rightarrow> float64" where
  "flux_density_of flux_s velocity_dispersion = np_div flux_s velocity_dispersion"

definition mass_h2_of :: "float64 \<Rightarrow> float64 \<Rightarrow> float64" where
  "mass_h2_of lco_diff_units alpha_CO = np_mul lco_diff_units alpha_CO"

subsection \<open>The kernel's namespace and the cells\<close>

text \<open>
  A cell reads and assigns variables of the kernel's namespace, which outlives the run of a
  cell and of the whole notebook. A variable that was never assigned is \<open>None\<close>; reading
  it raises NameError.
\<close>

record store =
  sfr :: "float64 option"
  kappa :: "float64 option"
  lfir :: "float64 option"
  lsun :: "float64 option"
  lfir_sun :: "float64 option"
  logco :: "float64 option"
  lco_diff_units :: "float64 option"
  rest_frame :: "float64 list option"
  redshift :: "float64 option"
  obs_freq :: "float64 list option"
  lco_32 :: "float64 option"
  lco_32_lens :: "float64 option"
  dl :: "float64 option"
  freq1 :: "float64 option"
  aa :: "float64 option"
  bb :: "float64 option"
  flux_s :: "float64 option"
  flux_density :: "float64 option"
  mass_h2 :: "float64 option"

text \<open>
  What a run is given: the numbers the source writes as literals, and what it takes from
  \<open>astropy\<close>, the value of \<open>con.L_sun\<close> (in watts) and the cosmology's
  \<open>luminosity_distance\<close> (in Mpc). The latter is a library call: for a redshift it
  returns a distance or raises.
\<close>

record params =
  p_sfr :: float64
  p_kappa :: float64
  p_redshift :: float64
  p_ratio :: float64
  p_magnification :: float64
  p_velocity_dispersion :: float64
  p_alpha_CO :: float64

record env =
  L_sun_value :: float64
  luminosity_distance :: "float64 \<Rightarrow> py_error + float64"

definition p1_params :: params where
  "p1_params = \<lparr> p_sfr = Num 30, p_kappa = Num (45 / 10 ^ 45), p_redshift = Num 1.036,
       p_ratio = Num 0.6, p_magnification = Num 4.3, p_velocity_dispersion = Num 200,
       p_alpha_CO = Num 4 \<rparr>"

definition empty_store :: store where
  "empty_store = \<lparr> sfr = None, kappa = None, lfir = None, lsun = None, lfir_sun = None,
       logco = None, lco_diff_units = None, rest_frame = None, redshift = None,
       obs_freq = None, lco_32 = None, lco_32_lens = None, dl = None, freq1 = None,
       aa = None, bb = None, flux_s = None, flux_density = None, mass_h2 = None \<rparr>"

definition read :: "'a option \<Rightarrow> py_error + 'a" where
  "read v = (case v of None \<Rightarrow> Inl NameError | Some x \<Rightarrow> Inr x)"

definition index :: "'a list \<Rightarrow> nat \<Rightarrow> py_error + 'a" where
  "index xs i = (if i < length xs then Inr (xs ! i) else Inl IndexError)"

text \<open>Cell 2: \<open>sfr\<close>, \<open>kappa\<close>, \<open>lfir\<close>.\<close>

definition cell2 :: "params \<Rightarrow> store \<Rightarrow> py_error + store" where
  "cell2 p s =
     (let s = s\<lparr>sfr := Some (p_sfr p)\<rparr>;
          s = s\<lparr>kappa := Some (p_kappa p)\<rparr>
      in bind (read (sfr s)) (\<lambda>a. bind (read (kappa s)) (\<lambda>b.
         bind (lfir_of a b) (\<lambda>v. Inr (s\<lparr>lfir := Some v\<rparr>)))))"

text \<open>Cell 3: \<open>lsun\<close>, \<open>lfir_sun\<close>, \<open>logco\<close>, \<open>lco_diff_units\<close>.\<close>

definition cell3 :: "env \<Rightarrow> store \<Rightarrow> py_error + store" where
  "cell3 e s =
     (let s = s\<lparr>lsun := Some (np_mul (L_sun_value e) (Num (10 ^ 7)))\<rparr>
      in bind (read (lfir s)) (\<lambda>a. bind (read (lsun s)) (\<lambda>b.
         let s = s\<lparr>lfir_sun := Some (lfir_sun_of a b)\<rparr>
         in bind (read (lfir_sun s)) (\<lambda>c.
         let s = s\<lparr>logco := Some (logco_of c)\<rparr>
         in bind (read (logco s)) (\<lambda>d. Inr (s\<lparr>lco_diff_units := Some (pow10 d)\<rparr>))))))"

text \<open>Cell 4: \<open>rest_frame\<close>, \<open>redshift\<close>, \<open>obs_freq\<close>.\<close>

definition cell4 :: "params \<Rightarrow> store \<Rightarrow> py_error + store" where
  "cell4 p s =
     (let s = s\<lparr>rest_frame := Some (map Num rest_frame_table)\<rparr>;
          s = s\<lparr>redshift := Some (p_redshift p)\<rparr>
      in bind (read (rest_frame s)) (\<lambda>r. bind (read (redshift s)) (\<lambda>z.
         Inr (s\<lparr>obs_freq := Some (obs_freq_of r z)\<rparr>))))"

text \<open>Cell 5: \<open>lco_32\<close>.\<close>

definition cell5 :: "params \<Rightarrow> store \<Rightarrow> py_error + store" where
  "cell5 p s =
     bind (read (lco_diff_units s)) (\<lambda>l. Inr (s\<lparr>lco_32 := Some (lco_32_of l (p_ratio p))\<rparr>))"

text \<open>Cell 6: \<open>lco_32_lens\<close>.\<close>

definition cell6 :: "params \<Rightarrow> store \<Rightarrow> py_error + store" where
  "cell6 p s =
     bind (read (lco_32 s)) (\<lambda>l.
       Inr (s\<lparr>lco_32_lens := Some (lco_32_lens_of (p_magnification p) l)\<rparr>))"

text \<open>
  Cell 7: \<open>dl\<close>, \<open>freq1 = obs_freq[2]\<close>, \<open>aa\<close>, \<open>bb\<close>, \<open>flux_s\<close>. The call of the
  cosmology comes first and can raise; so can the cube in \<open>aa\<close>.
\<close>

definition cell7 :: "env \<Rightarrow> store \<Rightarrow> py_error + store" where
  "cell7 e s =
     bind (read (redshift s)) (\<lambda>z. bind (luminosity_distance e z) (\<lambda>d0.
     let s = s\<lparr>dl := Some d0\<rparr>
     in bind (read (obs_freq s)) (\<lambda>fs. bind (index fs 2) (\<lambda>f.
     let s = s\<lparr>freq1 := Some f\<rparr>
     in bind (read (lco_32_lens s)) (\<lambda>l. bind (read (freq1 s)) (\<lambda>f1.
        bind (read (redshift s)) (\<lambda>z1. bind (aa_of l f1 z1) (\<lambda>a0.
     let s = s\<lparr>aa := Some a0\<rparr>
     in bind (read (dl s)) (\<lambda>d.
     let s = s\<lparr>bb := Some (bb_of d)\<rparr>
     in bind (read (aa s)) (\<lambda>a. bind (read (bb s)) (\<lambda>b.
        Inr (s\<lparr>flux_s := Some (np_div a b)\<rparr>))))))))))))"

text \<open>Cell 8: \<open>flux_density\<close>.\<close>

definition cell8 :: "params \<Rightarrow> store \<Rightarrow> py_error + store" where
  "cell8 p s =
     bind (read (flux_s s)) (\<lambda>f.
       Inr (s\<lparr>flux_density := Some (flux_density_of f (p_velocity_dispersion p))\<rparr>))"

text \<open>Cell 9: \<open>mass_h2\<close>.\<close>

definition cell9 :: "params \<Rightarrow> store \<Rightarrow> py_error + store" where
  "cell9 p s =
     bind (read (lco_diff_units s)) (\<lambda>l.
       Inr (s\<lparr>mass_h2 := Some (mass_h2_of l (p_alpha_CO p))\<rparr>))"

text \<open>Running every cell in order; the first exception stops the run.\<close>

definition notebook :: "params \<Rightarrow> env \<Rightarrow> store \<Rightarrow> py_error + store" where
  "notebook p e s =
     bind (cell2 p s) (\<lambda>s. bind (cell3 e s) (\<lambda>s. bind (cell4 p s) (\<lambda>s.
     bind (cell5 p s) (\<lambda>s. bind (cell6 p s) (\<lambda>s. bind (cell7 e s) (\<lambda>s.
     bind (cell8 p s) (\<lambda>s. cell9 p s)))))))"

text \<open>
  A stand-in for what \<open>astropy\<close> provides: \<open>con.L_sun.value\<close> is 3.828e26 (watts),
  and the cosmology returns the distance \<open>d\<close> at every redshift.
\<close>

definition const_env :: "real \<Rightarrow> env" where
  "const_env d =
     \<lparr> L_sun_value = Num (3828 * 10 ^ 23), luminosity_distance = (\<lambda>z. Inr (Num d)) \<rparr>"

text \<open>
  The outcome of a complete run, in closed form: the exception that stops it, or the
  namespace it leaves. Lemma \<open>notebook_run\<close> below proves that it is what the cells do.
\<close>

definition final_store ::
  "params \<Rightarrow> env \<Rightarrow> float64 \<Rightarrow> float64 \<Rightarrow> store" where
  "final_store p e dl_v aa_v =
     (let lfir_v = np_div (p_sfr p) (p_kappa p);
          lsun_v = np_mul (L_sun_value e) (Num (10 ^ 7));
          lco_v = lco_diff_units_of lfir_v lsun_v;
          obs_v = obs_freq_of (map Num rest_frame_table) (p_redshift p);
          lco_32_v = lco_32_of lco_v (p_ratio p);
          lens_v = lco_32_lens_of (p_magnification p) lco_32_v;
          flux_v = np_div aa_v (bb_of dl_v)
      in \<lparr> sfr = Some (p_sfr p), kappa = Some (p_kappa p), lfir = Some lfir_v,
           lsun = Some lsun_v, lfir_sun = Some (lfir_sun_of lfir_v lsun_v),
           logco = Some (logco_of (lfir_sun_of lfir_v lsun_v)),
           lco_diff_units = Some lco_v,
           rest_frame = Some (map Num rest_frame_table), redshift = Some (p_redshift p),
           obs_freq = Some obs_v, lco_32 = Some lco_32_v, lco_32_lens = Some lens_v,
           dl = Some dl_v, freq1 = Some (obs_v ! 2),
           aa = Some aa_v, bb = Some (bb_of dl_v),
           flux_s = Some flux_v,
           flux_density = Some (flux_density_of flux_v (p_velocity_dispersion p)),
           mass_h2 = Some (mass_h2_of lco_v (p_alpha_CO p)) \<rparr>)"

definition outcome :: "params \<Rightarrow> env \<Rightarrow> py_error + store" where
  "outcome p e =
     (if p_kappa p = Num 0 then Inl ZeroDivisionError
      else bind (luminosity_distance e (p_redshift p)) (\<lambda>dl_v.
           bind (aa_of
                  (lco_32_lens_of (p_magnification p)
                    (lco_32_of
                      (lco_diff_units_of (np_div (p_sfr p) (p_kappa p))
                        (np_mul (L_sun_value e) (Num (10 ^ 7))))
                      (p_ratio p)))
                  (obs_freq_of (map Num rest_frame_table) (p_redshift p) ! 2)
                  (p_redshift p))
             (\<lambda>aa_v. Inr (final_store p e dl_v aa_v))))"

section \<open>A complete run\<close>

lemma bind_Inr: "bind (Inr x) f = f x"
  by (simp add: bind_def)

lemma bind_Inl: "bind (Inl err) f = Inl err"
  by (simp add: bind_def)

lemma bind_assoc: "bind (bind m f) g = bind m (\<lambda>x. bind (f x) g)"
  by (simp add: bind_def split: sum.splits)

lemma read_Some: "read (Some x) = Inr x"
  by (simp add: read_def)

lemma notebook_run: "notebook p e s = outcome p e"
  by (simp add: notebook_def cell2_def cell3_def cell4_def cell5_def cell6_def cell7_def
      cell8_def cell9_def Let_def bind_def read_def index_def lfir_of_def py_div_def
      rest_frame_table_def final_store_def outcome_def obs_freq_of_def lco_diff_units_of_def
      split: sum.splits)

section \<open>The range\<close>

lemma pow10_le: "m \<le> n \<Longrightarrow> (10::real) ^ m \<le> 10 ^ n"
  by (rule power_increasing) simp_all

lemma inv_pow10_le: "m \<le> n \<Longrightarrow> 1 / (10::real) ^ n \<le> 1 / 10 ^ m"
  by (rule divide_left_mono) (simp_all add: pow10_le)

lemma inv_pow10_pos: "0 < 1 / (10::real) ^ n"
  by simp

lemma inv_pow10_cancel: "1 / (10::real) ^ n * 10 ^ n = 1"
  by simp




lemma overflow_bound_pow: "10 ^ 308 < overflow_bound" "overflow_bound < 10 ^ 309"
  by (simp_all add: overflow_bound_def)

lemma underflow_bound_pow: "1 / 10 ^ 324 < underflow_bound" "underflow_bound < 1 / 10 ^ 323"
  by (simp_all add: underflow_bound_def)


lemma overflow_bound_pos: "0 < overflow_bound"
  by (rule less_trans [OF _ overflow_bound_pow(1)]) (rule zero_less_power, simp)

lemma underflow_bound_pos: "0 < underflow_bound"
  by (simp add: underflow_bound_def)




lemma fl_in_range: "in_range x \<Longrightarrow> fl x = Num x"
  using overflow_bound_pos underflow_bound_pos by (auto simp: in_range_def fl_def)

lemma in_rangeI: "underflow_bound < x \<Longrightarrow> x < overflow_bound \<Longrightarrow> in_range x"
  using underflow_bound_pos by (simp add: in_range_def)

lemma fl_zero: "fl 0 = Num 0"
  by (simp add: fl_in_range in_range_def)

lemma in_range_pow:
  assumes "1 / 10 ^ m \<le> x" and "x \<le> 10 ^ n" and "m \<le> 323" and "n \<le> 308"
  shows "in_range x"
proof -
  have "underflow_bound < 1 / 10 ^ 323" by (rule underflow_bound_pow(2))
  also have "\<dots> \<le> 1 / 10 ^ m" using assms(3) by (rule inv_pow10_le)
  also note assms(1)
  finally have lo: "underflow_bound < x" .
  note assms(2)
  also have "(10::real) ^ n \<le> 10 ^ 308" using assms(4) by (rule pow10_le)
  also note overflow_bound_pow(1)
  finally have hi: "x < overflow_bound" .
  show ?thesis using lo hi by (rule in_rangeI)
qed

lemma in_range_50: "1 / 10 ^ 50 \<le> x \<Longrightarrow> x \<le> 10 ^ 50 \<Longrightarrow> in_range x"
  by (erule (1) in_range_pow) simp_all






lemma fl_nonneg: "0 \<le> x \<Longrightarrow> fl x = PosInf \<or> (\<exists>v\<ge>0. fl x = Num v)"
  using overflow_bound_pos by (auto simp: fl_def inf_signed_def)

lemma fl_mono: "x \<le> y \<Longrightarrow> f64_le (fl x) (fl y)"
  using overflow_bound_pos underflow_bound_pos
  by (auto simp: fl_def inf_signed_def)

lemma in_range_abs_less: "in_range x \<Longrightarrow> \<bar>x\<bar> < overflow_bound"
  using overflow_bound_pos by (auto simp: in_range_def)

lemma in_range_pos: "0 < x \<Longrightarrow> in_range x \<Longrightarrow> underflow_bound < x \<and> x < overflow_bound"
  by (auto simp: in_range_def)

lemma bounds_product: "underflow_bound * overflow_bound < 1"
proof -
  have "underflow_bound * overflow_bound < 1 / 10 ^ 323 * 10 ^ 309"
    by (rule mult_strict_mono [OF underflow_bound_pow(2) overflow_bound_pow(2) inv_pow10_pos
          less_imp_le [OF overflow_bound_pos]])
  also have "1 / 10 ^ 323 * 10 ^ 309 \<le> 1 / 10 ^ 323 * (10::real) ^ 323"
    by (rule mult_left_mono [OF pow10_le less_imp_le [OF inv_pow10_pos]]) simp
  also have "1 / 10 ^ 323 * (10::real) ^ 323 = 1"
    by (rule inv_pow10_cancel)
  finally show ?thesis .
qed

text \<open>
  A table entry divided by \<open>1 + z\<close>: for a binary64 \<open>z\<close> with \<open>1 + z > 0\<close> the divisor
  is between \<open>2 ^ -53\<close> and the largest number, and the quotient is within the range.
\<close>

lemma in_range_quotient:
  assumes "1 \<le> r" and "r \<le> 1000" and "1 / 10 ^ 16 \<le> w" and "w < overflow_bound"
  shows "in_range (r / w)"
proof -
  have w: "0 < w" using assms(3) by (rule less_le_trans [rotated]) simp
  have "underflow_bound * w < underflow_bound * overflow_bound"
    using assms(4) underflow_bound_pos by (rule mult_strict_left_mono)
  then have "underflow_bound * w < r"
    using bounds_product assms(1) by simp
  then have lo: "underflow_bound < r / w"
    using w by (simp add: pos_less_divide_eq)
  have "(10::real) ^ 3 * 10 ^ 16 < 10 ^ 308"
    unfolding power_add [symmetric] by (rule power_strict_increasing) simp_all
  also have "\<dots> < overflow_bound" by (rule overflow_bound_pow(1))
  finally have "1000 * 10 ^ 16 < overflow_bound" by simp
  then have "1000 < overflow_bound * (1 / 10 ^ 16)" by simp
  also have "\<dots> \<le> overflow_bound * w"
    using assms(3) overflow_bound_pos by (intro mult_left_mono) simp_all
  finally have "r < overflow_bound * w" using assms(2) by simp
  then have hi: "r / w < overflow_bound"
    using w by (simp add: pos_divide_less_eq)
  show ?thesis using lo hi by (rule in_rangeI)
qed

subsection \<open>Logarithms and powers of ten\<close>

lemma log10_less_pow:
  assumes "0 < q" and "q < 10 ^ n"
  shows "log 10 q < real n"
proof -
  have "log 10 q < log 10 (10 ^ n)"
    using assms by (simp only: log_less_cancel_iff)
  then show ?thesis by (simp add: log_nat_power)
qed

lemma log10_greater_pow:
  assumes "1 / 10 ^ n < q"
  shows "- real n < log 10 q"
proof -
  have q: "0 < q" using assms by (rule less_trans [rotated]) simp
  have "log 10 (1 / 10 ^ n) < log 10 q"
    using assms q by (subst log_less_cancel_iff) simp_all
  then show ?thesis by (simp add: log_divide log_nat_power)
qed

lemma pow10_less_pow:
  assumes "y < real n"
  shows "10 powr y < 10 ^ n"
proof -
  have "10 powr y < 10 powr (real n)"
    using assms by (simp only: powr_less_cancel_iff) 
  then show ?thesis by (simp add: powr_realpow)
qed

lemma pow10_greater_pow:
  assumes "- real n < y"
  shows "1 / 10 ^ n < 10 powr y"
proof -
  have "10 powr (- real n) < 10 powr y"
    using assms by (simp only: powr_less_cancel_iff)
  then show ?thesis by (simp add: powr_minus_divide powr_realpow)
qed

lemma range_within_powers:
  assumes "0 < q" and "in_range q"
  shows "1 / 10 ^ 324 < q" and "q < 10 ^ 309"
proof -
  have q: "underflow_bound < q" "q < overflow_bound"
    using in_range_pos [OF assms] by simp_all
  show "1 / 10 ^ 324 < q"
    by (rule less_trans [OF underflow_bound_pow(1) q(1)])
  show "q < 10 ^ 309"
    by (rule less_trans [OF q(2) overflow_bound_pow(2)])
qed

lemma pow10_in_range:
  assumes "0 < q" and "in_range q"
  shows "in_range (10 powr ((log 10 q - 53 / 100) / (113 / 100)))"
proof -
  define y where "y = (log 10 q - 53 / 100) / (113 / 100)"
  have "- real 324 < log 10 q"
    using range_within_powers(1) [OF assms] by (rule log10_greater_pow)
  moreover have "log 10 q < real 309"
    using assms(1) range_within_powers(2) [OF assms] by (rule log10_less_pow)
  ultimately have y: "- real 288 < y" "y < real 274"
    by (simp_all add: y_def field_simps)
  have "1 / 10 ^ 288 < 10 powr y"
    using y(1) by (rule pow10_greater_pow)
  then have "1 / 10 ^ 288 \<le> 10 powr y"
    by (rule less_imp_le)
  moreover have "10 powr y < 10 ^ 274"
    using y(2) by (rule pow10_less_pow)
  then have "10 powr y \<le> 10 ^ 274"
    by (rule less_imp_le)
  ultimately have "in_range (10 powr y)"
    by (rule in_range_pow) simp_all
  then show ?thesis unfolding y_def .
qed

subsection \<open>The stages on numbers within the range\<close>


lemma np_div_Num: "y \<noteq> 0 \<Longrightarrow> np_div (Num x) (Num y) = fl (x / y)"
  by simp


lemma lco_diff_units_of_Num:
  assumes "0 < L" and "0 < S" and "in_range (L / S)"
    and "in_range ((log 10 (L / S) - 53 / 100) / (113 / 100))"
  shows "lfir_sun_of (Num L) (Num S) = Num (L / S)"
    and "logco_of (Num (L / S)) = Num ((log 10 (L / S) - 53 / 100) / (113 / 100))"
    and "lco_diff_units_of (Num L) (Num S)
      = Num (10 powr ((log 10 (L / S) - 53 / 100) / (113 / 100)))"
proof -
  have q: "0 < L / S" using assms(1,2) by simp
  show 1: "lfir_sun_of (Num L) (Num S) = Num (L / S)"
    using assms(2,3) by (simp add: lfir_sun_of_def fl_in_range)
  show 2: "logco_of (Num (L / S)) = Num ((log 10 (L / S) - 53 / 100) / (113 / 100))"
    using q assms(4) by (simp add: logco_of_def np_sub_def fl_in_range)
  show "lco_diff_units_of (Num L) (Num S)
      = Num (10 powr ((log 10 (L / S) - 53 / 100) / (113 / 100)))"
    unfolding lco_diff_units_of_def 1 2
    using pow10_in_range [OF q assms(3)] by (simp add: fl_in_range)
qed

lemma py_pow3_Num: "in_range (x ^ 3) \<Longrightarrow> py_pow3 (Num x) = Inr (Num (x ^ 3))"
  using in_range_abs_less [of "x ^ 3"] by (simp add: fl_in_range)

lemma aa_of_Num:
  assumes "in_range (L * f)" and "in_range (L * f * f)"
    and "in_range ((1 + z) ^ 3)" and "in_range (L * f * f * (1 + z) ^ 3)"
  shows "aa_of (Num L) (Num f) (Num z) = Inr (Num (L * f * f * (1 + z) ^ 3))"
  using assms
  by (simp add: aa_of_def py_pow3_Num bind_def fl_in_range del: py_pow3.simps)

lemma bb_of_Num:
  assumes "in_range (d * d)" and "in_range (d * d * 32500000)"
  shows "bb_of (Num d) = Num (d * d * 32500000)"
  using assms by (simp add: bb_of_def fl_in_range)





subsection \<open>The outcome of a run\<close>

lemma outcome_Inr:
  assumes "outcome p e = Inr s'"
  shows "\<exists>d a. s' = final_store p e d a"
  using assms by (auto simp: outcome_def bind_def split: if_splits sum.splits)

lemma final_store_mass_h2:
  "lco_diff_units (final_store p e d a)
     = Some (lco_diff_units_of (np_div (p_sfr p) (p_kappa p))
              (np_mul (L_sun_value e) (Num (10 ^ 7))))"
  "mass_h2 (final_store p e d a)
     = Some (mass_h2_of
              (lco_diff_units_of (np_div (p_sfr p) (p_kappa p))
                (np_mul (L_sun_value e) (Num (10 ^ 7))))
              (p_alpha_CO p))"
  by (simp_all add: final_store_def Let_def)

subsection \<open>The stages keep the order\<close>

lemma fl_nonneg_le: "0 \<le> x \<Longrightarrow> f64_le (Num 0) (fl x)"
  using fl_mono [of 0 x] by (simp add: fl_zero)

lemma fl_le_PosInf: "f64_le (fl x) PosInf"
  using overflow_bound_pos by (auto simp: fl_def inf_signed_def)

lemma NegInf_le_fl: "f64_le NegInf (fl x)"
  using overflow_bound_pos by (auto simp: fl_def inf_signed_def)

lemma np_log10_mono:
  assumes "f64_le a b" and "a = PosInf \<or> (\<exists>v\<ge>0. a = Num v)"
  shows "f64_le (np_log10 a) (np_log10 b)"
  using assms by (cases a; cases b) auto

lemma np_sub_mono: "f64_le a b \<Longrightarrow> f64_le (np_sub a (Num c)) (np_sub b (Num c))"
  by (cases a; cases b) (auto simp: np_sub_def)

lemma np_div_mono:
  "f64_le a b \<Longrightarrow> 0 < c \<Longrightarrow> f64_le (np_div a (Num c)) (np_div b (Num c))"
  by (cases a; cases b) (auto simp: fl_mono divide_right_mono fl_le_PosInf NegInf_le_fl)

lemma pow10_mono: "f64_le a b \<Longrightarrow> f64_le (pow10 a) (pow10 b)"
  by (cases a; cases b) (auto simp: fl_mono fl_nonneg_le fl_le_PosInf)

lemma np_mul_mono:
  "f64_le a b \<Longrightarrow> 0 < c \<Longrightarrow> f64_le (np_mul a (Num c)) (np_mul b (Num c))"
  by (cases a; cases b) (auto simp: fl_mono mult_right_mono inf_signed_def fl_le_PosInf NegInf_le_fl)

section \<open>Bounds for the reference scenario\<close>

text \<open>
  The relation of Carilli and Walter has the exponent \<open>100 / 113\<close>, so a bound
  \<open>a \<le> 10 powr ((log 10 x - 0.53) / 1.13)\<close> is the bound \<open>a ^ 113 * 10 ^ 53 \<le> x ^ 100\<close>
  between rationals. The powers are bounded by repeated squaring, each square rounded to
  twelve digits.
\<close>

lemma sq_upper:
  fixes p u v :: real
  assumes "0 \<le> p" and "p ^ n \<le> u" and "u * u \<le> v"
  shows "p ^ (2 * n) \<le> v"
proof -
  have "0 \<le> p ^ n" using assms(1) by simp
  then have "p ^ n * p ^ n \<le> u * u"
    using assms(2) by (intro mult_mono) auto
  then show ?thesis using assms(3) by (simp add: mult_2 power_add)
qed

lemma sq_lower:
  fixes p l v :: real
  assumes "0 \<le> l" and "l \<le> p ^ n" and "v \<le> l * l"
  shows "v \<le> p ^ (2 * n)"
proof -
  have "l * l \<le> p ^ n * p ^ n"
    using assms(1,2) by (intro mult_mono) auto
  then show ?thesis using assms(3) by (simp add: mult_2 power_add)
qed

lemma mul_upper:
  fixes p q u v :: real
  assumes "0 \<le> p" and "p \<le> u" and "0 \<le> q" and "q \<le> v"
  shows "p * q \<le> u * v"
  using assms by (intro mult_mono) auto

lemma mul_lower:
  fixes p q l k :: real
  assumes "0 \<le> l" and "l \<le> p" and "0 \<le> k" and "k \<le> q"
  shows "l * k \<le> p * q"
  using assms by (intro mult_mono) auto

lemma pow113_upper:
  fixes a :: real
  assumes "0 \<le> a" and "a \<le> 6021 / 2000"
  shows "a ^ 113 \<le> 1219453836630000000000000000000000000000000000000000000"
proof -
  note nn = assms(1)
  have p1: "a ^ 1 \<le> 6021 / 2000" using assms by simp
  have p2: "a ^ 2 \<le> 36252441 / 4000000"
    using sq_upper [of a 1 "6021 / 2000" "36252441 / 4000000"] nn p1 by simp
  have p4: "a ^ 4 \<le> 821399674037 / 10000000000"
    using sq_upper [of a 2 "36252441 / 4000000" "821399674037 / 10000000000"] nn p2 by simp
  have p8: "a ^ 8 \<le> 674697424509 / 100000000"
    using sq_upper [of a 4 "821399674037 / 10000000000" "674697424509 / 100000000"] nn p4 by simp
  have p16: "a ^ 16 \<le> 5690207683 / 125"
    using sq_upper [of a 8 "674697424509 / 100000000" "5690207683 / 125"] nn p8 by simp
  have p32: "a ^ 32 \<le> 2072221662450000"
    using sq_upper [of a 16 "5690207683 / 125" "2072221662450000"] nn p16 by simp
  have p64: "a ^ 64 \<le> 4294102618330000000000000000000"
    using sq_upper [of a 32 "2072221662450000" "4294102618330000000000000000000"] nn p32 by simp
  have split: "a ^ 113 = a ^ 64 * (a ^ 32 * (a ^ 16 * (a ^ 1)))"
    unfolding power_add [symmetric] by simp
  have m1: "a ^ 16 * (a ^ 1) \<le> 34260740459343 / 250000"
    using mul_upper [OF _ p16 _ p1] nn by simp
  have m2: "a ^ 32 * (a ^ 16 * (a ^ 1)) \<le> 1419916971028554561895407 / 5"
    using mul_upper [OF _ p32 _ m1] nn by simp
  have m3: "a ^ 64 * (a ^ 32 * (a ^ 16 * (a ^ 1))) \<le> 1219453836620983779486066649260202062000000000000000000"
    using mul_upper [OF _ p64 _ m2] nn by simp
  show ?thesis unfolding split using m3 by simp
qed

lemma pow100_lower:
  fixes x :: real
  assumes "34831 / 20000 \<le> x"
  shows "1240494260560000000000000 \<le> x ^ 100"
proof -
  have nn: "0 \<le> x" using assms by simp
  have p1: "34831 / 20000 \<le> x ^ 1" using assms by simp
  have p2: "1213198561 / 400000000 \<le> x ^ 2"
    using sq_lower [of "34831 / 20000" x 1 "1213198561 / 400000000"] p1 by simp
  have p4: "919906717757 / 100000000000 \<le> x ^ 4"
    using sq_lower [of "1213198561 / 400000000" x 2 "919906717757 / 100000000000"] p2 by simp
  have p8: "423114184687 / 5000000000 \<le> x ^ 8"
    using sq_lower [of "919906717757 / 100000000000" x 4 "423114184687 / 5000000000"] p4 by simp
  have p16: "716102453133 / 100000000 \<le> x ^ 16"
    using sq_lower [of "423114184687 / 5000000000" x 8 "716102453133 / 100000000"] p8 by simp
  have p32: "512802723383 / 10000 \<le> x ^ 32"
    using sq_lower [of "716102453133 / 100000000" x 16 "512802723383 / 10000"] p16 by simp
  have p64: "2629666331090000 \<le> x ^ 64"
    using sq_lower [of "512802723383 / 10000" x 32 "2629666331090000"] p32 by simp
  have split: "x ^ 100 = x ^ 64 * (x ^ 32 * (x ^ 4))"
    unfolding power_add [symmetric] by simp
  have m1: "471730670124106325211931 / 1000000000000000 \<le> x ^ 32 * (x ^ 4)"
    using mul_lower [OF _ p32 _ p4] by simp
  have m2: "124049426056788575518512095946423479 / 100000000000 \<le> x ^ 64 * (x ^ 32 * (x ^ 4))"
    using mul_lower [OF _ p64 _ m1] by simp
  show ?thesis unfolding split using m2 by simp
qed

lemma pow113_lower:
  fixes b :: real
  assumes "6023 / 2000 \<le> b"
  shows "1266088395490000000000000000000000000000000000000000000 \<le> b ^ 113"
proof -
  have nn: "0 \<le> b" using assms by simp
  have p1: "6023 / 2000 \<le> b ^ 1" using assms by simp
  have p2: "36276529 / 4000000 \<le> b ^ 2"
    using sq_lower [of "6023 / 2000" b 1 "36276529 / 4000000"] p1 by simp
  have p4: "822491597679 / 10000000000 \<le> b ^ 4"
    using sq_lower [of "36276529 / 4000000" b 2 "822491597679 / 10000000000"] p2 by simp
  have p8: "169123107063 / 25000000 \<le> b ^ 8"
    using sq_lower [of "822491597679 / 10000000000" b 4 "169123107063 / 25000000"] p4 by simp
  have p16: "228821002741 / 5000 \<le> b ^ 16"
    using sq_lower [of "169123107063 / 25000000" b 8 "228821002741 / 5000"] p8 by simp
  have p32: "2094362051810000 \<le> b ^ 32"
    using sq_lower [of "228821002741 / 5000" b 16 "2094362051810000"] p16 by simp
  have p64: "4386352404060000000000000000000 \<le> b ^ 64"
    using sq_lower [of "2094362051810000" b 32 "4386352404060000000000000000000"] p32 by simp
  have split: "b ^ 113 = b ^ 64 * (b ^ 32 * (b ^ 16 * (b ^ 1)))"
    unfolding power_add [symmetric] by simp
  have m1: "1378188899509043 / 10000000 \<le> b ^ 16 * (b ^ 1)"
    using mul_lower [OF _ p16 _ p1] by simp
  have m2: "288642653135752519912951783 / 1000 \<le> b ^ 32 * (b ^ 16 * (b ^ 1))"
    using mul_lower [OF _ p32 _ m1] by simp
  have m3: "1266088395496264763257379075292913438980000000000000000 \<le> b ^ 64 * (b ^ 32 * (b ^ 16 * (b ^ 1)))"
    using mul_lower [OF _ p64 _ m2] by simp
  show ?thesis unfolding split using m3 by simp
qed

lemma pow100_upper:
  fixes x :: real
  assumes "0 \<le> x" and "x \<le> 43539 / 25000"
  shows "x ^ 100 \<le> 1241206756380000000000000"
proof -
  note nn = assms(1)
  have p1: "x ^ 1 \<le> 43539 / 25000" using assms by simp
  have p2: "x ^ 2 \<le> 1895644521 / 625000000"
    using sq_upper [of x 1 "43539 / 25000" "1895644521 / 625000000"] nn p1 by simp
  have p4: "x ^ 4 \<le> 71869363 / 7812500"
    using sq_upper [of x 2 "1895644521 / 625000000" "71869363 / 7812500"] nn p2 by simp
  have p8: "x ^ 8 \<le> 846267242583 / 10000000000"
    using sq_upper [of x 4 "71869363 / 7812500" "846267242583 / 10000000000"] nn p4 by simp
  have p16: "x ^ 16 \<le> 71616824587 / 10000000"
    using sq_upper [of x 8 "846267242583 / 10000000000" "71616824587 / 10000000"] nn p8 by simp
  have p32: "x ^ 32 \<le> 512896956393 / 10000"
    using sq_upper [of x 16 "71616824587 / 10000000" "512896956393 / 10000"] nn p16 by simp
  have p64: "x ^ 64 \<le> 2630632878780000"
    using sq_upper [of x 32 "512896956393 / 10000" "2630632878780000"] nn p32 by simp
  have split: "x ^ 100 = x ^ 64 * (x ^ 32 * (x ^ 4))"
    unfolding power_add [symmetric] by simp
  have m1: "x ^ 32 * (x ^ 4) \<le> 36861577540603687659 / 78125000000"
    using mul_upper [OF _ p32 _ p4] nn by simp
  have m2: "x ^ 64 * (x ^ 32 * (x ^ 4)) \<le> 4848463892100523560273956448801 / 3906250"
    using mul_upper [OF _ p64 _ m1] nn by simp
  show ?thesis unfolding split using m2 by simp
qed

lemma log10_scaled:
  fixes x :: real
  assumes "0 < x"
  shows "log 10 (x * 10 ^ n) = log 10 x + real n"
  using assms by (simp add: log_mult log_nat_power)

lemma carilli_lower:
  fixes a x :: real
  assumes "0 < a" and "0 < x" and "a ^ 113 \<le> x ^ 100 * 10 ^ k"
    and "113 * m + 53 + k = 100 * n"
  shows "a * 10 ^ m \<le> 10 powr ((log 10 (x * 10 ^ n) - 53 / 100) / (113 / 100))"
proof -
  have "log 10 (a ^ 113) \<le> log 10 (x ^ 100 * 10 ^ k)"
    using assms(1-3) by (simp add: log_le_cancel_iff)
  moreover have "log 10 (a ^ 113) = 113 * log 10 a"
    using assms(1) by (simp add: log_nat_power)
  moreover have "log 10 (x ^ 100 * 10 ^ k) = 100 * log 10 x + real k"
    using assms(2) by (simp add: log10_scaled log_nat_power)
  ultimately have "113 * log 10 a \<le> 100 * log 10 x + real k" by simp
  moreover have "113 * real m + 53 + real k = 100 * real n"
    using assms(4) by (metis of_nat_add of_nat_mult of_nat_numeral)
  ultimately have "113 * (log 10 a + real m) \<le> 100 * (log 10 x + real n) - 53"
    by (simp add: algebra_simps)
  then have "log 10 a + real m \<le> (log 10 x + real n - 53 / 100) / (113 / 100)"
    by (simp add: field_simps)
  then have "log 10 (a * 10 ^ m) \<le> (log 10 (x * 10 ^ n) - 53 / 100) / (113 / 100)"
    using assms(1,2) by (simp only: log10_scaled)
  then have "10 powr (log 10 (a * 10 ^ m))
      \<le> 10 powr ((log 10 (x * 10 ^ n) - 53 / 100) / (113 / 100))"
    by (simp only: powr_le_cancel_iff)
  moreover have "10 powr (log 10 (a * 10 ^ m)) = a * 10 ^ m"
    using assms(1) by simp
  ultimately show ?thesis by simp
qed

lemma carilli_upper:
  fixes b x :: real
  assumes "0 < b" and "0 < x" and "x ^ 100 * 10 ^ k \<le> b ^ 113"
    and "113 * m + 53 + k = 100 * n"
  shows "10 powr ((log 10 (x * 10 ^ n) - 53 / 100) / (113 / 100)) \<le> b * 10 ^ m"
proof -
  have "log 10 (x ^ 100 * 10 ^ k) \<le> log 10 (b ^ 113)"
    using assms(1-3) by (simp add: log_le_cancel_iff)
  moreover have "log 10 (b ^ 113) = 113 * log 10 b"
    using assms(1) by (simp add: log_nat_power)
  moreover have "log 10 (x ^ 100 * 10 ^ k) = 100 * log 10 x + real k"
    using assms(2) by (simp add: log10_scaled log_nat_power)
  ultimately have "100 * log 10 x + real k \<le> 113 * log 10 b" by simp
  moreover have "113 * real m + 53 + real k = 100 * real n"
    using assms(4) by (metis of_nat_add of_nat_mult of_nat_numeral)
  ultimately have "100 * (log 10 x + real n) - 53 \<le> 113 * (log 10 b + real m)"
    by (simp add: algebra_simps)
  then have "(log 10 x + real n - 53 / 100) / (113 / 100) \<le> log 10 b + real m"
    by (simp add: field_simps)
  then have "(log 10 (x * 10 ^ n) - 53 / 100) / (113 / 100) \<le> log 10 (b * 10 ^ m)"
    using assms(1,2) by (simp only: log10_scaled)
  then have "10 powr ((log 10 (x * 10 ^ n) - 53 / 100) / (113 / 100))
      \<le> 10 powr (log 10 (b * 10 ^ m))"
    by (simp only: powr_le_cancel_iff)
  moreover have "10 powr (log 10 (b * 10 ^ m)) = b * 10 ^ m"
    using assms(1) by simp
  ultimately show ?thesis by simp
qed

lemma lco_reference_bounds:
  shows "3010500000 \<le> 10 powr ((log 10 (5000 / 2871 * 10 ^ 11) - 53 / 100) / (113 / 100))"
    and "10 powr ((log 10 (5000 / 2871 * 10 ^ 11) - 53 / 100) / (113 / 100)) \<le> 3011500000"
proof -
  define x :: real where "x = 5000 / 2871"
  have xl: "34831 / 20000 \<le> x" and xu: "x \<le> 43539 / 25000" and x0: "0 < x" "0 \<le> x"
    by (simp_all add: x_def)
  have "(30105 / 10000 :: real) ^ 113 \<le> 1219453836630000000000000000000000000000000000000000000"
    by (rule pow113_upper) simp_all
  also have "\<dots> \<le> 1240494260560000000000000 * 10 ^ 30" by simp
  also have "\<dots> \<le> x ^ 100 * 10 ^ 30"
    using pow100_lower [OF xl] by simp
  finally have le: "(30105 / 10000 :: real) ^ 113 \<le> x ^ 100 * 10 ^ 30" .
  have "30105 / 10000 * 10 ^ 9 \<le> 10 powr ((log 10 (x * 10 ^ 11) - 53 / 100) / (113 / 100))"
  proof (rule carilli_lower [where k = 30])
    show "(0::real) < 30105 / 10000" by simp
    show "0 < x" by (rule x0)
    show "(30105 / 10000) ^ 113 \<le> x ^ 100 * 10 ^ 30" by (rule le)
    show "113 * 9 + 53 + 30 = 100 * (11::nat)" by simp
  qed
  moreover have "(30105 / 10000 :: real) * 10 ^ 9 = 3010500000" by simp
  ultimately show "3010500000 \<le> 10 powr ((log 10 (5000 / 2871 * 10 ^ 11) - 53 / 100) / (113 / 100))"
    unfolding x_def by (simp only:)
  have "x ^ 100 * 10 ^ 30 \<le> 1241206756380000000000000 * 10 ^ 30"
    using pow100_upper [OF x0(2) xu] by simp
  also have "\<dots> \<le> 1266088395490000000000000000000000000000000000000000000" by simp
  also have "\<dots> \<le> (30115 / 10000 :: real) ^ 113"
    by (rule pow113_lower) simp
  finally have ge: "x ^ 100 * 10 ^ 30 \<le> (30115 / 10000 :: real) ^ 113" .
  have "10 powr ((log 10 (x * 10 ^ 11) - 53 / 100) / (113 / 100)) \<le> 30115 / 10000 * 10 ^ 9"
  proof (rule carilli_upper [where k = 30])
    show "(0::real) < 30115 / 10000" by simp
    show "0 < x" by (rule x0)
    show "x ^ 100 * 10 ^ 30 \<le> (30115 / 10000) ^ 113" by (rule ge)
    show "113 * 9 + 53 + 30 = 100 * (11::nat)" by simp
  qed
  moreover have "(30115 / 10000 :: real) * 10 ^ 9 = 3011500000" by simp
  ultimately show "10 powr ((log 10 (5000 / 2871 * 10 ^ 11) - 53 / 100) / (113 / 100)) \<le> 3011500000"
    unfolding x_def by (simp only:)
qed

lemma lco_reference:
  "\<exists>c. lco_diff_units_of (Num (30 / (45 / 10 ^ 45))) (Num (3828 * 10 ^ 23 * 10 ^ 7)) = Num c
     \<and> 3010500000 \<le> c \<and> c \<le> 3011500000"
proof -
  define y :: real where "y = (log 10 (5000 / 2871 * 10 ^ 11) - 53 / 100) / (113 / 100)"
  have X: "(30 / (45 / 10 ^ 45)) / (3828 * 10 ^ 23 * 10 ^ 7) = (5000 / 2871 * 10 ^ 11 :: real)"
    by simp
  have b: "3010500000 \<le> 10 powr y" "10 powr y \<le> 3011500000"
    unfolding y_def by (rule lco_reference_bounds)+
  have "10 powr 9 \<le> 10 powr y"
    using b(1) by simp
  then have y9: "9 \<le> y"
    by (simp only: powr_le_cancel_iff) 
  have "10 powr y \<le> 10 powr 10"
    using b(2) by simp
  then have y10: "y \<le> 10"
    by (simp only: powr_le_cancel_iff)
  have ry: "in_range y"
    using y9 y10 by (intro in_range_50) simp_all
  have rq: "in_range (5000 / 2871 * 10 ^ 11)"
    by (intro in_range_50) simp_all
  have "lco_diff_units_of (Num (30 / (45 / 10 ^ 45))) (Num (3828 * 10 ^ 23 * 10 ^ 7))
      = Num (10 powr ((log 10 ((30 / (45 / 10 ^ 45)) / (3828 * 10 ^ 23 * 10 ^ 7)) - 53 / 100)
          / (113 / 100)))"
  proof (rule lco_diff_units_of_Num(3))
    show "(0::real) < 30 / (45 / 10 ^ 45)" "(0::real) < 3828 * 10 ^ 23 * 10 ^ 7"
      by simp_all
    show "in_range (30 / (45 / 10 ^ 45) / (3828 * 10 ^ 23 * 10 ^ 7))"
      unfolding X by (rule rq)
    show "in_range ((log 10 (30 / (45 / 10 ^ 45) / (3828 * 10 ^ 23 * 10 ^ 7)) - 53 / 100)
        / (113 / 100))"
      unfolding X using ry unfolding y_def .
  qed
  then have "lco_diff_units_of (Num (30 / (45 / 10 ^ 45))) (Num (3828 * 10 ^ 23 * 10 ^ 7))
      = Num (10 powr y)"
    unfolding X y_def .
  then show ?thesis using b by blast
qed

lemma flux_reference:
  fixes c d :: real
  assumes "3010500000 \<le> c" and "c \<le> 3011500000" and "7093 \<le> d" and "d \<le> 7097"
  shows "\<exists>v. flux_s_of (Num (4.3 * (c * 0.6))) (Num (345.795989 / (1 + 1.036))) (Num 1.036)
            (Num d) = Inr (Num v)
          \<and> 1.155 \<le> v \<and> v < 1.157"
proof -
  define D where "D = d * d"
  have D1: "7093 * 7093 \<le> D" unfolding D_def using assms by (intro mult_mono) auto
  have D2: "D \<le> 7097 * 7097" unfolding D_def using assms by (intro mult_mono) auto
  have D0: "0 < D" using D1 by simp
  define A where "A = 4.3 * (c * 0.6) * (345.795989 / (1 + 1.036)) * (345.795989 / (1 + 1.036))
      * (1 + 1.036) ^ 3"
  define v where "v = A / (D * 32500000)"
  have A0: "0 < A" unfolding A_def using assms(1) by simp
  have vl: "1.155 \<le> v"
    unfolding v_def A_def using D0 D2 assms(1) by (simp add: field_simps)
  have vu: "v < 1.157"
    unfolding v_def A_def using D0 D1 assms(2) by (simp add: field_simps)
  have a: "aa_of (Num (4.3 * (c * 0.6))) (Num (345.795989 / (1 + 1.036))) (Num 1.036) = Inr (Num A)"
    unfolding A_def
  proof (rule aa_of_Num)
    show "in_range (4.3 * (c * 0.6) * (345.795989 / (1 + 1.036)))"
      using assms(1,2) by (intro in_range_50) simp_all
    show "in_range (4.3 * (c * 0.6) * (345.795989 / (1 + 1.036)) * (345.795989 / (1 + 1.036)))"
      using assms(1,2) by (intro in_range_50) simp_all
    show "in_range ((1 + 1.036) ^ 3)"
      by (intro in_range_50) (simp_all add: power3_eq_cube)
    show "in_range (4.3 * (c * 0.6) * (345.795989 / (1 + 1.036)) * (345.795989 / (1 + 1.036))
        * (1 + 1.036) ^ 3)"
      using assms(1,2) by (intro in_range_50) (simp_all add: power3_eq_cube)
  qed
  have b: "bb_of (Num d) = Num (D * 32500000)"
    unfolding D_def
  proof (rule bb_of_Num)
    show "in_range (d * d)"
      using D1 D2 unfolding D_def by (intro in_range_50) simp_all
    show "in_range (d * d * 32500000)"
      using D1 D2 unfolding D_def by (intro in_range_50) simp_all
  qed
  have rv: "in_range v"
    using vl vu by (intro in_range_50) simp_all
  have "flux_s_of (Num (4.3 * (c * 0.6))) (Num (345.795989 / (1 + 1.036))) (Num 1.036) (Num d)
      = Inr (np_div (Num A) (Num (D * 32500000)))"
    unfolding flux_s_of_def a b by (simp add: bind_def)
  also have "np_div (Num A) (Num (D * 32500000)) = Num v"
    using D0 rv by (simp add: v_def fl_in_range)
  finally show ?thesis using vl vu by blast
qed

lemma obs_freq_third:
  "obs_freq_of (map Num rest_frame_table) z ! 2 = np_div (Num 345.795989) (np_add (Num 1) z)"
  by (simp add: obs_freq_of_def rest_frame_table_def)

lemma outcome_Num:
  assumes "p_sfr p = Num a" and "p_kappa p = Num k" and "p_redshift p = Num z"
    and "p_ratio p = Num r" and "p_magnification p = Num m"
    and "p_velocity_dispersion p = Num w"
    and "L_sun_value e = Num S" and "luminosity_distance e (Num z) = Inr (Num d)"
    and "k \<noteq> 0" and "1 + z \<noteq> 0" and "w \<noteq> 0"
    and "in_range (a / k)" and "in_range (S * 10 ^ 7)" and "in_range (345.795989 / (1 + z))"
    and "lco_diff_units_of (Num (a / k)) (Num (S * 10 ^ 7)) = Num c"
    and "in_range (c * r)" and "in_range (m * (c * r))"
    and "flux_s_of (Num (m * (c * r))) (Num (345.795989 / (1 + z))) (Num z) (Num d)
      = Inr (Num v)"
    and "in_range (v / w)"
  shows "\<exists>s'. outcome p e = Inr s'
     \<and> lfir s' = Some (Num (a / k))
     \<and> map_option (\<lambda>fs. fs ! 2) (obs_freq s') = Some (Num (345.795989 / (1 + z)))
     \<and> freq1 s' = Some (Num (345.795989 / (1 + z)))
     \<and> lco_diff_units s' = Some (Num c)
     \<and> flux_s s' = Some (Num v)
     \<and> flux_density s' = Some (Num (v / w))"
proof -
  obtain av where av: "aa_of (Num (m * (c * r))) (Num (345.795989 / (1 + z))) (Num z) = Inr av"
    and fv: "np_div av (bb_of (Num d)) = Num v"
    using assms(18) by (auto simp: flux_s_of_def bind_def split: sum.splits)
  have obs2: "obs_freq_of (map Num rest_frame_table) (Num z) ! 2 = Num (345.795989 / (1 + z))"
    by (simp only: obs_freq_third np_add.simps np_div_Num [OF assms(10)] fl_in_range [OF assms(14)])
  have lens: "lco_32_lens_of (Num m) (lco_32_of (Num c) (Num r)) = Num (m * (c * r))"
    using assms(16,17) by (simp add: lco_32_lens_of_def lco_32_of_def fl_in_range)
  have lf: "np_div (Num a) (Num k) = Num (a / k)"
    using assms(9,12) by (simp add: fl_in_range)
  have ls: "np_mul (Num S) (Num (10 ^ 7)) = Num (S * 10 ^ 7)"
    using assms(13) by (simp only: np_mul.simps fl_in_range)
  have out: "outcome p e = Inr (final_store p e (Num d) av)"
    unfolding outcome_def assms(1-8) lf ls assms(15) lens obs2 av
    using assms(9) by (simp add: bind_def)
  have fd: "flux_density_of (Num v) (Num w) = Num (v / w)"
    using assms(11,19) by (simp add: flux_density_of_def fl_in_range)
  have "map_option (\<lambda>fs. fs ! 2) (obs_freq (final_store p e (Num d) av))
      = Some (obs_freq_of (map Num rest_frame_table) (Num z) ! 2)"
    unfolding final_store_def Let_def assms(3) by simp
  then have f2: "map_option (\<lambda>fs. fs ! 2) (obs_freq (final_store p e (Num d) av))
      = Some (Num (345.795989 / (1 + z)))"
    unfolding obs2 .
  have "freq1 (final_store p e (Num d) av)
      = Some (obs_freq_of (map Num rest_frame_table) (Num z) ! 2)"
    unfolding final_store_def Let_def assms(3) by simp
  then have f3: "freq1 (final_store p e (Num d) av) = Some (Num (345.795989 / (1 + z)))"
    unfolding obs2 .
  have "lfir (final_store p e (Num d) av) = Some (Num (a / k))"
    "lco_diff_units (final_store p e (Num d) av) = Some (Num c)"
    "flux_s (final_store p e (Num d) av) = Some (Num v)"
    "flux_density (final_store p e (Num d) av) = Some (Num (v / w))"
    unfolding final_store_def Let_def assms(1-8) lf ls assms(15) fv fd
    by simp_all
  then show ?thesis using out f2 f3 by blast
qed

lemma notebook_completes:
  assumes "p_kappa p \<noteq> Num 0" and "p_redshift p = Num z"
    and "luminosity_distance e (Num z) = Inr d" and "in_range ((1 + z) ^ 3)"
  shows "notebook p e s = Inr (projr (notebook p e s))"
proof -
  have "py_pow3 (Num (1 + z)) = Inr (Num ((1 + z) ^ 3))"
    using assms(4) by (rule py_pow3_Num)
  then have "\<exists>s'. outcome p e = Inr s'"
    using assms(1,3)
    by (simp add: outcome_def assms(2) aa_of_def bind_def del: py_pow3.simps)
  then show ?thesis by (auto simp: notebook_run)
qed


section \<open>Properties\<close>

















text \<open>
  C6. For every redshift \<open>z\<close> with \<open>1 + z > 0\<close>, the observed frequency is computed for
  every line of the table of CO rest frequencies, as the binary64 value of
  \<open>rest / (1 + z)\<close>: cell 4 leaves in \<open>obs_freq\<close> one frequency for each of the seven
  entries, not that of a single line. For a binary64 redshift with \<open>1 + z > 0\<close> the sum
  \<open>1 + z\<close> is at least \<open>2 ^ -53\<close> and within the range; then every quotient is within
  the range, and the frequency is \<open>rest / (1 + z)\<close> itself.
\<close>

theorem obs_freq_every_line:
  "0 < 1 + z \<Longrightarrow> p_redshift p = Num z \<Longrightarrow>
   obs_freq_of (map Num rest_frame_table) (Num z) = map (\<lambda>r. fl (r / (1 + z))) rest_frame_table
   \<and> length (obs_freq_of (map Num rest_frame_table) (Num z)) = 7
   \<and> (\<exists>s'. cell4 p s = Inr s' \<and>
         obs_freq s' = Some (map (\<lambda>r. fl (r / (1 + z))) rest_frame_table))
   \<and> (1 / 10 ^ 16 \<le> 1 + z \<longrightarrow> 1 + z < overflow_bound \<longrightarrow>
        map (\<lambda>r. fl (r / (1 + z))) rest_frame_table
          = map (\<lambda>r. Num (r / (1 + z))) rest_frame_table)"
proof -
  assume z: "0 < 1 + z" and p: "p_redshift p = Num z"
  have all: "obs_freq_of (map Num rest_frame_table) (Num z)
      = map (\<lambda>r. fl (r / (1 + z))) rest_frame_table"
    using z by (simp add: obs_freq_of_def)
  have len: "length (obs_freq_of (map Num rest_frame_table) (Num z)) = 7"
    by (simp add: obs_freq_of_def rest_frame_table_def)
  have cell: "\<exists>s'. cell4 p s = Inr s' \<and>
         obs_freq s' = Some (map (\<lambda>r. fl (r / (1 + z))) rest_frame_table)"
    using all by (simp add: cell4_def p bind_def read_def)
  have exact: "1 / 10 ^ 16 \<le> 1 + z \<longrightarrow> 1 + z < overflow_bound \<longrightarrow>
        map (\<lambda>r. fl (r / (1 + z))) rest_frame_table
          = map (\<lambda>r. Num (r / (1 + z))) rest_frame_table"
  proof (intro impI)
    assume w: "1 / 10 ^ 16 \<le> 1 + z" "1 + z < overflow_bound"
    have "fl (r / (1 + z)) = Num (r / (1 + z))" if "r \<in> set rest_frame_table" for r
    proof -
      have "1 \<le> r" "r \<le> 1000"
        using that by (auto simp: rest_frame_table_def)
      then have "in_range (r / (1 + z))"
        using w by (rule in_range_quotient)
      then show ?thesis by (rule fl_in_range)
    qed
    then show "map (\<lambda>r. fl (r / (1 + z))) rest_frame_table
        = map (\<lambda>r. Num (r / (1 + z))) rest_frame_table"
      by simp
  qed
  show ?thesis
    by (intro conjI) (fact all len cell exact)+
qed

theorem obs_freq_every_line_witness:
  "(0::real) < 1 + 1.036 \<and> p_redshift p1_params = Num 1.036
   \<and> (1 / 10 ^ 16 :: real) \<le> 1 + 1.036 \<and> (1 + 1.036 :: real) < overflow_bound
   \<and> obs_freq_of (map Num rest_frame_table) (Num 1.036)
     = map (\<lambda>r. fl (r / (1 + 1.036))) rest_frame_table
   \<and> length (obs_freq_of (map Num rest_frame_table) (Num 1.036)) = 7
   \<and> (\<exists>s'. cell4 p1_params empty_store = Inr s' \<and>
         obs_freq s' = Some (map (\<lambda>r. fl (r / (1 + 1.036))) rest_frame_table))
   \<and> map (\<lambda>r. fl (r / (1 + 1.036))) rest_frame_table
     = map (\<lambda>r. Num (r / (1 + 1.036))) rest_frame_table"
proof -
  have h: "(0::real) < 1 + 1.036" "p_redshift p1_params = Num 1.036"
    by (simp_all add: p1_params_def)
  have "in_range (1 + 1.036)"
    by (intro in_range_50) simp_all
  then have w: "(1 / 10 ^ 16 :: real) \<le> 1 + 1.036" "(1 + 1.036 :: real) < overflow_bound"
    using in_range_pos [of "1 + 1.036"] by simp_all
  show ?thesis
    using h w obs_freq_every_line [OF h, of empty_store] by blast
qed

text \<open>
  C7. For fixed \<open>L_sun > 0\<close> and \<open>alpha_CO > 0\<close>, the mass of H2 computed from the CO(1-0)
  luminosity of \<open>L_IR\<close> is monotonically increasing in \<open>L_IR\<close> over \<open>L_IR > 0\<close>: a
  larger \<open>L_IR\<close> never gives a smaller mass. (In binary64 it cannot be more: the mass is
  the same \<open>inf\<close> wherever \<open>L_IR / L_sun\<close> overflows, the same 0 wherever it underflows,
  and the same number for neighbouring \<open>L_IR\<close>.)
\<close>

theorem mass_h2_increasing:
  "0 < S \<Longrightarrow> 0 < a \<Longrightarrow> 0 < L1 \<Longrightarrow> L1 \<le> L2 \<Longrightarrow>
   f64_le (mass_h2_of (lco_diff_units_of (Num L1) (Num S)) (Num a))
          (mass_h2_of (lco_diff_units_of (Num L2) (Num S)) (Num a))"
proof -
  assume S: "0 < S" and a: "0 < a" and L: "0 < L1" "L1 \<le> L2"
  have q: "0 \<le> L1 / S" "L1 / S \<le> L2 / S"
    using S L by (simp_all add: divide_right_mono)
  have 1: "f64_le (lfir_sun_of (Num L1) (Num S)) (lfir_sun_of (Num L2) (Num S))"
    using S q(2) by (simp add: lfir_sun_of_def fl_mono)
  have n: "lfir_sun_of (Num L1) (Num S) = PosInf \<or> (\<exists>v\<ge>0. lfir_sun_of (Num L1) (Num S) = Num v)"
    using S fl_nonneg [OF q(1)] by (simp add: lfir_sun_of_def)
  have "f64_le (np_log10 (lfir_sun_of (Num L1) (Num S))) (np_log10 (lfir_sun_of (Num L2) (Num S)))"
    using 1 n by (rule np_log10_mono)
  then have "f64_le (np_sub (np_log10 (lfir_sun_of (Num L1) (Num S))) (Num 0.53))
      (np_sub (np_log10 (lfir_sun_of (Num L2) (Num S))) (Num 0.53))"
    by (rule np_sub_mono)
  then have "f64_le (logco_of (lfir_sun_of (Num L1) (Num S))) (logco_of (lfir_sun_of (Num L2) (Num S)))"
    unfolding logco_of_def by (rule np_div_mono) simp
  then have "f64_le (lco_diff_units_of (Num L1) (Num S)) (lco_diff_units_of (Num L2) (Num S))"
    unfolding lco_diff_units_of_def by (rule pow10_mono)
  then show ?thesis
    unfolding mass_h2_of_def using a by (rule np_mul_mono)
qed

theorem mass_h2_increasing_witness:
  "(0::real) < 1 \<and> (0::real) < 4 \<and> (0::real) < 1 \<and> (1::real) \<le> 10
   \<and> f64_le (mass_h2_of (lco_diff_units_of (Num 1) (Num 1)) (Num 4))
            (mass_h2_of (lco_diff_units_of (Num 10) (Num 1)) (Num 4))"
proof -
  have h: "(0::real) < 1" "(0::real) < 4" "(0::real) < 1" "(1::real) \<le> 10"
    by simp_all
  show ?thesis
    using h mass_h2_increasing [OF h] by blast
qed

text \<open>
  C8. A run depends on its inputs only. Whatever the kernel's namespace holds when the run
  starts (nothing, or what an earlier run left), the same inputs give the same outcome:
  the same value for every variable, or the same exception. In particular a second run,
  started from the namespace the first one left, reproduces the first.
\<close>

theorem notebook_no_hidden_state:
  "notebook p e s1 = notebook p e s2 \<and>
   bind (notebook p e s1) (notebook p e) = notebook p e s1"
  by (simp add: notebook_run bind_def split: sum.splits)

theorem notebook_no_hidden_state_witness:
  "notebook p1_params (const_env 7095) empty_store
     = notebook p1_params (const_env 7095) (empty_store\<lparr>mass_h2 := Some NaN\<rparr>) \<and>
   bind (notebook p1_params (const_env 7095) empty_store) (notebook p1_params (const_env 7095))
     = notebook p1_params (const_env 7095) empty_store"
  by (rule notebook_no_hidden_state)

text \<open>
  C9. The reference scenario: the numbers of the notebook, \<open>con.L_sun\<close> = 3.828e26 W, and
  a luminosity distance at \<open>z = 1.036\<close> between 7093 and 7097 Mpc (the cosmology is not
  part of the notebook; Planck15 gives about 7095). Then, rounded to the digits the
  notebook prints, the infrared luminosity is 6.67e+44 erg/s, the observed CO(3-2)
  frequency 169.84 GHz, the integrated flux density 1.16 Jy km/s and the flux density
  5.78e-03 Jy.
\<close>

theorem reference_scenario:
  assumes "L_sun_value e = Num (3828 * 10 ^ 23)"
    and "luminosity_distance e (Num 1.036) = Inr (Num d)"
    and "7093 \<le> d" and "d \<le> 7097"
  shows "\<exists>s' l f v w. notebook p1_params e s = Inr s'
     \<and> lfir s' = Some (Num l) \<and> 6.665 * 10 ^ 44 \<le> l \<and> l < 6.675 * 10 ^ 44
     \<and> map_option (\<lambda>fs. fs ! 2) (obs_freq s') = Some (Num f) \<and> freq1 s' = Some (Num f)
     \<and> 169.835 \<le> f \<and> f < 169.845
     \<and> flux_s s' = Some (Num v) \<and> 1.155 \<le> v \<and> v < 1.165
     \<and> flux_density s' = Some (Num w) \<and> 0.005775 \<le> w \<and> w < 0.005785"
proof -
  obtain c where c: "lco_diff_units_of (Num (30 / (45 / 10 ^ 45))) (Num (3828 * 10 ^ 23 * 10 ^ 7)) = Num c"
    and cl: "3010500000 \<le> c" and cu: "c \<le> 3011500000"
    using lco_reference by blast
  obtain v where v: "flux_s_of (Num (4.3 * (c * 0.6))) (Num (345.795989 / (1 + 1.036)))
            (Num 1.036) (Num d) = Inr (Num v)"
    and vl: "1.155 \<le> v" and vu: "v < 1.157"
    using flux_reference [OF cl cu assms(3,4)] by blast
  have p: "p_sfr p1_params = Num 30" "p_kappa p1_params = Num (45 / 10 ^ 45)"
    "p_redshift p1_params = Num 1.036" "p_ratio p1_params = Num 0.6"
    "p_magnification p1_params = Num 4.3" "p_velocity_dispersion p1_params = Num 200"
    by (simp_all add: p1_params_def)
  have nz: "(45 / 10 ^ 45 :: real) \<noteq> 0" "(1 + 1.036 :: real) \<noteq> 0" "(200 :: real) \<noteq> 0"
    by simp_all
  have r1: "in_range (30 / (45 / 10 ^ 45))" "in_range (3828 * 10 ^ 23 * 10 ^ 7)"
    "in_range (345.795989 / (1 + 1.036))"
    by (simp_all add: in_range_50)
  have r2: "in_range (c * 0.6)" "in_range (4.3 * (c * 0.6))"
    using cl cu by (simp_all add: in_range_50)
  have r3: "in_range (v / 200)"
    using vl vu by (simp add: in_range_50)
  obtain s' where s': "outcome p1_params e = Inr s'"
    "lfir s' = Some (Num (30 / (45 / 10 ^ 45)))"
    "map_option (\<lambda>fs. fs ! 2) (obs_freq s') = Some (Num (345.795989 / (1 + 1.036)))"
    "freq1 s' = Some (Num (345.795989 / (1 + 1.036)))"
    "flux_s s' = Some (Num v)"
    "flux_density s' = Some (Num (v / 200))"
    using outcome_Num [OF p assms(1,2) nz r1 c r2 v r3] by blast
  have "6.665 * 10 ^ 44 \<le> (30 / (45 / 10 ^ 45) :: real)"
    "(30 / (45 / 10 ^ 45) :: real) < 6.675 * 10 ^ 44"
    "169.835 \<le> (345.795989 / (1 + 1.036) :: real)"
    "(345.795989 / (1 + 1.036) :: real) < 169.845"
    by simp_all
  moreover have "0.005775 \<le> v / 200" "v / 200 < 0.005785" "v < 1.165"
    using vl vu by simp_all
  moreover have "notebook p1_params e s = Inr s'"
    using s'(1) by (simp only: notebook_run)
  ultimately show ?thesis
    using s'(2-6) vl by blast
qed

theorem reference_scenario_witness:
  "L_sun_value (const_env 7095) = Num (3828 * 10 ^ 23)
   \<and> luminosity_distance (const_env 7095) (Num 1.036) = Inr (Num 7095)
   \<and> (7093::real) \<le> 7095 \<and> (7095::real) \<le> 7097
   \<and> (\<exists>s' l f v w. notebook p1_params (const_env 7095) empty_store = Inr s'
     \<and> lfir s' = Some (Num l) \<and> 6.665 * 10 ^ 44 \<le> l \<and> l < 6.675 * 10 ^ 44
     \<and> map_option (\<lambda>fs. fs ! 2) (obs_freq s') = Some (Num f) \<and> freq1 s' = Some (Num f)
     \<and> 169.835 \<le> f \<and> f < 169.845
     \<and> flux_s s' = Some (Num v) \<and> 1.155 \<le> v \<and> v < 1.165
     \<and> flux_density s' = Some (Num w) \<and> 0.005775 \<le> w \<and> w < 0.005785)"
proof -
  have h: "L_sun_value (const_env 7095) = Num (3828 * 10 ^ 23)"
    "luminosity_distance (const_env 7095) (Num 1.036) = Inr (Num 7095)"
    "(7093::real) \<le> 7095" "(7095::real) \<le> 7097"
    by (simp_all add: const_env_def)
  show ?thesis
    using h reference_scenario [OF h, of empty_store] by blast
qed

text \<open>
  C10. Two runs that complete and that agree on the star formation rate, on \<open>kappa\<close> and
  on \<open>L_sun\<close> (and on the conversion factor \<open>alpha_CO\<close>, which the source fixes) produce
  the same mass of H2, however they differ in magnification, line ratio, redshift,
  luminosity distance and velocity dispersion: the mass is computed from the star
  formation rate, \<open>kappa\<close>, \<open>L_sun\<close> and \<open>alpha_CO\<close> alone. (A run in which cell 7 raises,
  for the redshift it is given, stops before cell 9 and produces no mass.)
\<close>

theorem mass_h2_ignores_later_stages:
  assumes "notebook p e s = Inr s'" and "notebook q f t = Inr t'"
    and "p_sfr p = p_sfr q" and "p_kappa p = p_kappa q" and "p_alpha_CO p = p_alpha_CO q"
    and "L_sun_value e = L_sun_value f"
  shows "mass_h2 s' = mass_h2 t'
     \<and> mass_h2 s' = Some (mass_h2_of
          (lco_diff_units_of (np_div (p_sfr p) (p_kappa p))
            (np_mul (L_sun_value e) (Num (10 ^ 7))))
          (p_alpha_CO p))"
proof -
  have "outcome p e = Inr s'" "outcome q f = Inr t'"
    using assms(1,2) by (simp_all only: notebook_run)
  then obtain d a d' a' where "s' = final_store p e d a" "t' = final_store q f d' a'"
    using outcome_Inr by blast
  then show ?thesis
    by (simp add: final_store_mass_h2 assms(3-6))
qed

theorem mass_h2_ignores_later_stages_witness:
  "notebook p1_params (const_env 7095) empty_store
     = Inr (projr (notebook p1_params (const_env 7095) empty_store))
   \<and> notebook (p1_params\<lparr>p_redshift := Num 2, p_ratio := Num 1,
         p_magnification := Num 1, p_velocity_dispersion := Num 100\<rparr>)
         (const_env 15000) empty_store
     = Inr (projr (notebook (p1_params\<lparr>p_redshift := Num 2, p_ratio := Num 1,
         p_magnification := Num 1, p_velocity_dispersion := Num 100\<rparr>)
         (const_env 15000) empty_store))
   \<and> p_sfr p1_params = p_sfr (p1_params\<lparr>p_redshift := Num 2, p_ratio := Num 1,
       p_magnification := Num 1, p_velocity_dispersion := Num 100\<rparr>)
   \<and> p_kappa p1_params = p_kappa (p1_params\<lparr>p_redshift := Num 2, p_ratio := Num 1,
       p_magnification := Num 1, p_velocity_dispersion := Num 100\<rparr>)
   \<and> p_alpha_CO p1_params = p_alpha_CO (p1_params\<lparr>p_redshift := Num 2, p_ratio := Num 1,
       p_magnification := Num 1, p_velocity_dispersion := Num 100\<rparr>)
   \<and> L_sun_value (const_env 7095) = L_sun_value (const_env 15000)
   \<and> mass_h2 (projr (notebook p1_params (const_env 7095) empty_store))
     = mass_h2 (projr (notebook (p1_params\<lparr>p_redshift := Num 2, p_ratio := Num 1,
         p_magnification := Num 1, p_velocity_dispersion := Num 100\<rparr>)
         (const_env 15000) empty_store))"
proof -
  define q where "q = p1_params\<lparr>p_redshift := Num 2, p_ratio := Num 1,
       p_magnification := Num 1, p_velocity_dispersion := Num 100\<rparr>"
  have k: "p_kappa p1_params \<noteq> Num 0" "p_kappa q \<noteq> Num 0"
    and z: "p_redshift p1_params = Num 1.036" "p_redshift q = Num 2"
    by (simp_all add: p1_params_def q_def)
  have d: "luminosity_distance (const_env 7095) (Num 1.036) = Inr (Num 7095)"
    "luminosity_distance (const_env 15000) (Num 2) = Inr (Num 15000)"
    by (simp_all add: const_env_def)
  have cube: "in_range ((1 + 1.036) ^ 3)" "in_range ((1 + 2) ^ 3)"
    by (simp_all add: in_range_50 power3_eq_cube)
  have run: "notebook p1_params (const_env 7095) empty_store
      = Inr (projr (notebook p1_params (const_env 7095) empty_store))"
    using k(1) z(1) d(1) cube(1) by (rule notebook_completes)
  have run': "notebook q (const_env 15000) empty_store
      = Inr (projr (notebook q (const_env 15000) empty_store))"
    using k(2) z(2) d(2) cube(2) by (rule notebook_completes)
  have h: "p_sfr p1_params = p_sfr q" "p_kappa p1_params = p_kappa q"
    "p_alpha_CO p1_params = p_alpha_CO q"
    "L_sun_value (const_env 7095) = L_sun_value (const_env 15000)"
    by (simp_all add: q_def const_env_def)
  show ?thesis
    using run run' h mass_h2_ignores_later_stages [OF run run' h]
    unfolding q_def by blast
qed

end
